theory Spec2Isabelle
  imports Main "HOL-Library.Sublist"
begin

section \<open>The Sphinx configuration module \<open>docs/conf.py\<close>\<close>

text \<open>
  The module is eighteen lines of Python:
  \<^verbatim>\<open>
   7  from rocm_docs import ROCmDocs
  10  docs_core = ROCmDocs("hipCUB Documentation")
  11  docs_core.run_doxygen()
  12  docs_core.enable_api_reference()
  13  docs_core.setup()
  15  external_projects_current_project = "hipcub"
  17  for sphinx_var in ROCmDocs.SPHINX_VARS:
  18      globals()[sphinx_var] = getattr(docs_core, sphinx_var)
  \<close>
  The package \<open>rocm_docs\<close> is not part of the repository. It is a parameter of the
  model: a record of functions that say what the import, the constructor, the methods
  and the attribute reads do to the world outside the module and what they return or
  raise. The module itself is modelled statement by statement, with Python's rules for
  module-level names: every name the module binds (\<open>ROCmDocs\<close>, \<open>docs_core\<close>,
  \<open>external_projects_current_project\<close>, the loop variable \<open>sphinx_var\<close> and
  whatever the loop stores through \<open>globals()\<close>) lives in one dictionary, and a name is
  looked up there first and among the builtins second.

  Three things are taken for granted. The module starts with no global bound (the
  entries Python itself puts into a fresh module, such as \<open>__name__\<close>, play no part).
  \<open>ROCmDocs.SPHINX_VARS\<close> is a fixed list of strings. And code outside the module
  changes the outside world only: it does not reach into the module's dictionary.
\<close>

subsection \<open>Values, exceptions, events\<close>

text \<open>
  The module builds strings itself; every other value (the class, its instance, the
  attribute values) comes from outside and is opaque.
\<close>

datatype pyval = Str string | Obj nat

datatype exn = NameError string | Thrown pyval

text \<open>
  What the module asks of the outside, in the order it asks. \<open>ECall\<close> carries the name
  the call was written with in the source, the value that name resolved to and the
  arguments.
\<close>

datatype event =
    EImport
  | ECall string pyval "pyval list"
  | EMethod pyval string "pyval list"
  | EGetattr pyval string
  | EIter pyval
  | ESetitem pyval pyval pyval

subsection \<open>The world outside the module\<close>

text \<open>
  \<open>ROCmDocs\<close> is the class object the import binds and \<open>SPHINX_VARS\<close> its class-level
  list of names. Every other field is a call that leaves the module: it takes the
  outside world, returns the world it leaves behind and either a value or the
  exception it raised.
  \<^item> \<open>import_rocm_docs\<close>: running \<open>from rocm_docs import ROCmDocs\<close>;
  \<^item> \<open>call f args\<close>: calling the object \<open>f\<close>;
  \<^item> \<open>call_method obj m args\<close>: \<open>obj.m(args)\<close>;
  \<^item> \<open>getattr obj name\<close>: the builtin \<open>getattr(obj, name)\<close>;
  \<^item> \<open>iter_vars obj\<close>: reading \<open>obj.SPHINX_VARS\<close> on an object other than the class
    and listing its elements;
  \<^item> \<open>setitem d k v\<close>: \<open>d[k] = v\<close> on an object other than the module's own dictionary.
\<close>

record 'w extern =
  ROCmDocs :: pyval
  SPHINX_VARS :: "string list"
  import_rocm_docs :: "'w \<Rightarrow> 'w \<times> exn option"
  call :: "pyval \<Rightarrow> pyval list \<Rightarrow> 'w \<Rightarrow> 'w \<times> (exn + pyval)"
  call_method :: "pyval \<Rightarrow> string \<Rightarrow> pyval list \<Rightarrow> 'w \<Rightarrow> 'w \<times> (exn + pyval)"
  getattr :: "pyval \<Rightarrow> string \<Rightarrow> 'w \<Rightarrow> 'w \<times> (exn + pyval)"
  iter_vars :: "pyval \<Rightarrow> 'w \<Rightarrow> 'w \<times> (exn + string list)"
  setitem :: "pyval \<Rightarrow> pyval \<Rightarrow> pyval \<Rightarrow> 'w \<Rightarrow> 'w \<times> exn option"

subsection \<open>The state of a run\<close>

record 'w state =
  globals :: "string \<rightharpoonup> pyval"
  world :: 'w
  trace :: "event list"

datatype 'w outcome = Completed "'w state" | Raised exn "'w state"

fun final :: "'w outcome \<Rightarrow> 'w state" where
  "final (Completed s) = s"
| "final (Raised e s) = s"

definition initial :: "'w \<Rightarrow> 'w state" where
  "initial w = \<lparr>globals = Map.empty, world = w, trace = []\<rparr>"

definition bind_global :: "string \<Rightarrow> pyval \<Rightarrow> 'w state \<Rightarrow> 'w state" where
  "bind_global n v s = s\<lparr>globals := (globals s)(n \<mapsto> v)\<rparr>"

definition left :: "event \<Rightarrow> 'w \<Rightarrow> 'w state \<Rightarrow> 'w state" where
  "left ev w' s = s\<lparr>world := w', trace := trace s @ [ev]\<rparr>"

subsection \<open>The statements\<close>

text \<open>Line 7: \<open>from rocm_docs import ROCmDocs\<close>.\<close>

definition import_stmt :: "'w extern \<Rightarrow> 'w state \<Rightarrow> 'w outcome" where
  "import_stmt ext s =
     (case import_rocm_docs ext (world s) of
        (w', Some e) \<Rightarrow> Raised e (left EImport w' s)
      | (w', None) \<Rightarrow> Completed (bind_global ''ROCmDocs'' (ROCmDocs ext) (left EImport w' s)))"

text \<open>Line 10: \<open>docs_core = ROCmDocs("hipCUB Documentation")\<close>.\<close>

definition construct_stmt :: "'w extern \<Rightarrow> 'w state \<Rightarrow> 'w outcome" where
  "construct_stmt ext s =
     (case globals s ''ROCmDocs'' of
        None \<Rightarrow> Raised (NameError ''ROCmDocs'') s
      | Some c \<Rightarrow>
          (case call ext c [Str ''hipCUB Documentation''] (world s) of
             (w', Inl e) \<Rightarrow>
               Raised e (left (ECall ''ROCmDocs'' c [Str ''hipCUB Documentation'']) w' s)
           | (w', Inr v) \<Rightarrow>
               Completed (bind_global ''docs_core'' v
                 (left (ECall ''ROCmDocs'' c [Str ''hipCUB Documentation'']) w' s))))"

text \<open>
  Lines 11 to 13: \<open>docs_core.run_doxygen()\<close>, \<open>docs_core.enable_api_reference()\<close>,
  \<open>docs_core.setup()\<close>. The value returned is dropped.
\<close>

definition method_stmt :: "'w extern \<Rightarrow> string \<Rightarrow> 'w state \<Rightarrow> 'w outcome" where
  "method_stmt ext m s =
     (case globals s ''docs_core'' of
        None \<Rightarrow> Raised (NameError ''docs_core'') s
      | Some d \<Rightarrow>
          (case call_method ext d m [] (world s) of
             (w', Inl e) \<Rightarrow> Raised e (left (EMethod d m []) w' s)
           | (w', Inr r) \<Rightarrow> Completed (left (EMethod d m []) w' s)))"

text \<open>Line 15: \<open>external_projects_current_project = "hipcub"\<close>.\<close>

definition assign_stmt :: "'w state \<Rightarrow> 'w outcome" where
  "assign_stmt s =
     Completed (bind_global ''external_projects_current_project'' (Str ''hipcub'') s)"

text \<open>
  Line 18, right-hand side: \<open>getattr(docs_core, sphinx_var)\<close>, where \<open>sphinx_var\<close>
  holds the name \<open>n\<close>. \<open>docs_core\<close> is read from the module's dictionary at every
  iteration. \<open>getattr\<close> is the builtin unless the dictionary binds that name, in which
  case the bound object is called.
\<close>

definition eval_getattr :: "'w extern \<Rightarrow> string \<Rightarrow> 'w state \<Rightarrow> 'w state \<times> (exn + pyval)" where
  "eval_getattr ext n s =
     (case globals s ''docs_core'' of
        None \<Rightarrow> (s, Inl (NameError ''docs_core''))
      | Some d \<Rightarrow>
          (case globals s ''getattr'' of
             None \<Rightarrow>
               (case getattr ext d n (world s) of
                  (w', r) \<Rightarrow> (left (EGetattr d n) w' s, r))
           | Some f \<Rightarrow>
               (case call ext f [d, Str n] (world s) of
                  (w', r) \<Rightarrow> (left (ECall ''getattr'' f [d, Str n]) w' s, r))))"

text \<open>
  Line 18, target: \<open>globals()[sphinx_var] = v\<close>. \<open>globals\<close> is the builtin, which
  returns the module's dictionary, unless the dictionary binds that name; then the
  bound object is called and the store goes to whatever it returns.
\<close>

definition store_global :: "'w extern \<Rightarrow> string \<Rightarrow> pyval \<Rightarrow> 'w state \<Rightarrow> 'w outcome" where
  "store_global ext n v s =
     (case globals s ''globals'' of
        None \<Rightarrow> Completed (bind_global n v s)
      | Some g \<Rightarrow>
          (case call ext g [] (world s) of
             (w', Inl e) \<Rightarrow> Raised e (left (ECall ''globals'' g []) w' s)
           | (w', Inr d) \<Rightarrow>
               (case setitem ext d (Str n) v w' of
                  (w'', Some e) \<Rightarrow>
                    Raised e (left (ESetitem d (Str n) v) w'' (left (ECall ''globals'' g []) w' s))
                | (w'', None) \<Rightarrow>
                    Completed (left (ESetitem d (Str n) v) w'' (left (ECall ''globals'' g []) w' s)))))"

text \<open>Line 18 as a whole: the right-hand side is evaluated first, then the store.\<close>

definition export_stmt :: "'w extern \<Rightarrow> string \<Rightarrow> 'w state \<Rightarrow> 'w outcome" where
  "export_stmt ext n s =
     (case eval_getattr ext n s of
        (s', Inl e) \<Rightarrow> Raised e s'
      | (s', Inr v) \<Rightarrow> store_global ext n v s')"

text \<open>
  Lines 17 and 18: the loop. At module level the loop variable is a module global:
  each iteration first binds \<open>sphinx_var\<close> to the next name, then runs line 18.
\<close>

fun for_loop :: "'w extern \<Rightarrow> string list \<Rightarrow> 'w state \<Rightarrow> 'w outcome" where
  "for_loop ext [] s = Completed s"
| "for_loop ext (n # ns) s =
     (case export_stmt ext n (bind_global ''sphinx_var'' (Str n) s) of
        Completed s' \<Rightarrow> for_loop ext ns s'
      | Raised e s' \<Rightarrow> Raised e s')"

text \<open>
  The loop header evaluates \<open>ROCmDocs.SPHINX_VARS\<close> once. On the class it is the
  class-level list; should the name \<open>ROCmDocs\<close> have been rebound, the attribute is
  read from whatever object it now names.
\<close>

definition export_loop :: "'w extern \<Rightarrow> 'w state \<Rightarrow> 'w outcome" where
  "export_loop ext s =
     (case globals s ''ROCmDocs'' of
        None \<Rightarrow> Raised (NameError ''ROCmDocs'') s
      | Some c \<Rightarrow>
          if c = ROCmDocs ext then for_loop ext (SPHINX_VARS ext) s
          else
            (case iter_vars ext c (world s) of
               (w', Inl e) \<Rightarrow> Raised e (left (EIter c) w' s)
             | (w', Inr ns) \<Rightarrow> for_loop ext ns (left (EIter c) w' s)))"

subsection \<open>The module body\<close>

fun run :: "('w state \<Rightarrow> 'w outcome) list \<Rightarrow> 'w state \<Rightarrow> 'w outcome" where
  "run [] s = Completed s"
| "run (st # sts) s =
     (case st s of
        Completed s' \<Rightarrow> run sts s'
      | Raised e s' \<Rightarrow> Raised e s')"

definition program :: "'w extern \<Rightarrow> ('w state \<Rightarrow> 'w outcome) list" where
  "program ext =
     [import_stmt ext,
      construct_stmt ext,
      method_stmt ext ''run_doxygen'',
      method_stmt ext ''enable_api_reference'',
      method_stmt ext ''setup'',
      assign_stmt,
      export_loop ext]"

definition module_body :: "'w extern \<Rightarrow> 'w \<Rightarrow> 'w outcome" where
  "module_body ext w = run (program ext) (initial w)"

text \<open>The run of the first \<open>k\<close> statements of the module.\<close>

definition run_first :: "nat \<Rightarrow> 'w extern \<Rightarrow> 'w \<Rightarrow> 'w outcome" where
  "run_first k ext w = run (take k (program ext)) (initial w)"

subsection \<open>Reading a trace\<close>

text \<open>
  The effect on the outside world of the call an event stands for, and of a whole
  trace, replayed from a starting world.
\<close>

fun effect :: "'w extern \<Rightarrow> event \<Rightarrow> 'w \<Rightarrow> 'w" where
  "effect ext EImport w = fst (import_rocm_docs ext w)"
| "effect ext (ECall n f args) w = fst (call ext f args w)"
| "effect ext (EMethod d m args) w = fst (call_method ext d m args w)"
| "effect ext (EGetattr d n) w = fst (getattr ext d n w)"
| "effect ext (EIter c) w = fst (iter_vars ext c w)"
| "effect ext (ESetitem d k v) w = fst (setitem ext d k v w)"

definition replay :: "'w extern \<Rightarrow> event list \<Rightarrow> 'w \<Rightarrow> 'w" where
  "replay ext evs w = foldl (\<lambda>w' ev. effect ext ev w') w evs"

definition accounted :: "'w extern \<Rightarrow> 'w \<Rightarrow> 'w state \<Rightarrow> bool" where
  "accounted ext w0 s = (world s = replay ext (trace s) w0)"

text \<open>
  The exception the call an event stands for raises in the world \<open>w\<close>, if any; and
  whether every call of a trace, replayed from \<open>w\<close>, returned normally.
\<close>

fun raised_by :: "'w extern \<Rightarrow> event \<Rightarrow> 'w \<Rightarrow> exn option" where
  "raised_by ext EImport w = snd (import_rocm_docs ext w)"
| "raised_by ext (ECall n f args) w =
     (case snd (call ext f args w) of Inl e \<Rightarrow> Some e | Inr v \<Rightarrow> None)"
| "raised_by ext (EMethod d m args) w =
     (case snd (call_method ext d m args w) of Inl e \<Rightarrow> Some e | Inr v \<Rightarrow> None)"
| "raised_by ext (EGetattr d n) w =
     (case snd (getattr ext d n w) of Inl e \<Rightarrow> Some e | Inr v \<Rightarrow> None)"
| "raised_by ext (EIter c) w =
     (case snd (iter_vars ext c w) of Inl e \<Rightarrow> Some e | Inr ns \<Rightarrow> None)"
| "raised_by ext (ESetitem d k v) w = snd (setitem ext d k v w)"

fun returned :: "'w extern \<Rightarrow> 'w \<Rightarrow> event list \<Rightarrow> bool" where
  "returned ext w [] = True"
| "returned ext w (ev # evs) = (raised_by ext ev w = None \<and> returned ext (effect ext ev w) evs)"

text \<open>
  A run is orderly when its world is accounted for by its trace and every call it made
  has returned, except possibly the last one of a run that raised.
\<close>

fun orderly :: "'w extern \<Rightarrow> 'w \<Rightarrow> 'w outcome \<Rightarrow> bool" where
  "orderly ext w0 (Completed s) = (accounted ext w0 s \<and> returned ext w0 (trace s))"
| "orderly ext w0 (Raised e s) = (accounted ext w0 s \<and> returned ext w0 (butlast (trace s)))"

text \<open>
  The last call of the trace of \<open>s\<close> raised \<open>e\<close>, in the world the calls before it
  left.
\<close>

definition blames :: "'w extern \<Rightarrow> 'w \<Rightarrow> exn \<Rightarrow> 'w state \<Rightarrow> bool" where
  "blames ext w0 e s =
     (trace s \<noteq> [] \<and>
      raised_by ext (last (trace s)) (replay ext (butlast (trace s)) w0) = Some e)"

text \<open>The events of lines 7 to 13, on the instance \<open>d\<close>.\<close>

definition prelude :: "'w extern \<Rightarrow> pyval \<Rightarrow> event list" where
  "prelude ext d =
     [EImport,
      ECall ''ROCmDocs'' (ROCmDocs ext) [Str ''hipCUB Documentation''],
      EMethod d ''run_doxygen'' [],
      EMethod d ''enable_api_reference'' [],
      EMethod d ''setup'' []]"

text \<open>The events lines 17 and 18 can leave.\<close>

fun loop_event :: "event \<Rightarrow> bool" where
  "loop_event (EGetattr d n) = True"
| "loop_event (ECall n f args) = (n = ''getattr'' \<or> n = ''globals'')"
| "loop_event (ESetitem d k v) = True"
| "loop_event (EIter c) = True"
| "loop_event ev = False"

fun is_call :: "string \<Rightarrow> event \<Rightarrow> bool" where
  "is_call name (ECall n f args) = (n = name)"
| "is_call name ev = False"

fun is_method :: "string \<Rightarrow> event \<Rightarrow> bool" where
  "is_method name (EMethod d m args) = (m = name)"
| "is_method name ev = False"

fun method_event :: "event \<Rightarrow> bool" where
  "method_event (EMethod d m args) = True"
| "method_event ev = False"

subsection \<open>States and runs\<close>

text \<open>Whether a run came to its end.\<close>

fun completed :: "'w outcome \<Rightarrow> bool" where
  "completed (Completed s) = True"
| "completed (Raised e s) = False"

text \<open>The state in which the loop starts: lines 7 to 15 have run, on the instance \<open>d\<close>.\<close>

definition before_loop :: "'w extern \<Rightarrow> pyval \<Rightarrow> 'w \<Rightarrow> 'w state" where
  "before_loop ext d w' =
     \<lparr>globals = [''ROCmDocs'' \<mapsto> ROCmDocs ext, ''docs_core'' \<mapsto> d,
                 ''external_projects_current_project'' \<mapsto> Str ''hipcub''],
      world = w', trace = prelude ext d\<rparr>"

text \<open>Lines 17 and 18 executed once more, right after the module has run.\<close>

definition loop_again :: "'w extern \<Rightarrow> 'w \<Rightarrow> 'w outcome" where
  "loop_again ext w = export_loop ext (final (module_body ext w))"

text \<open>
  A state in which line 18 means what it says: \<open>docs_core\<close> names \<open>d\<close>, and
  \<open>getattr\<close> and \<open>globals\<close> are the builtins.
\<close>

definition plain :: "pyval \<Rightarrow> 'w state \<Rightarrow> bool" where
  "plain d s =
     (globals s ''docs_core'' = Some d \<and> globals s ''getattr'' = None \<and> globals s ''globals'' = None)"

text \<open>
  Reading an attribute in \<open>ns\<close> from \<open>d\<close> gives the same answer, a value or an
  exception, whatever the outside world has become.
\<close>

definition deterministic_reads :: "'w extern \<Rightarrow> pyval \<Rightarrow> string list \<Rightarrow> bool" where
  "deterministic_reads ext d ns =
     (\<forall>n \<in> set ns. \<forall>w1 w2. snd (getattr ext d n w1) = snd (getattr ext d n w2))"

text \<open>
  What one iteration does to the globals when the attribute \<open>n\<close> reads as \<open>A n\<close>.
\<close>

definition export_upd :: "(string \<Rightarrow> pyval) \<Rightarrow> string \<Rightarrow> (string \<rightharpoonup> pyval) \<Rightarrow> (string \<rightharpoonup> pyval)" where
  "export_upd A n g = g(''sphinx_var'' \<mapsto> Str n, n \<mapsto> A n)"

subsection \<open>The source text\<close>

definition nl :: char where
  "nl = CHR 0x0A"

definition dq :: char where
  "dq = CHR 0x22"

definition conf_py :: string where
  "conf_py =
     ''# Configuration file for the Sphinx documentation builder.'' @ [nl] @
     ''#'' @ [nl] @
     ''# This file only contains a selection of the most common options. For a full'' @ [nl] @
     ''# list see the documentation:'' @ [nl] @
     ''# https://www.sphinx-doc.org/en/master/usage/configuration.html'' @ [nl] @
     [nl] @
     ''from rocm_docs import ROCmDocs'' @ [nl] @
     [nl] @
     [nl] @
     ''docs_core = ROCmDocs('' @ [dq] @ ''hipCUB Documentation'' @ [dq] @ '')'' @ [nl] @
     ''docs_core.run_doxygen()'' @ [nl] @
     ''docs_core.enable_api_reference()'' @ [nl] @
     ''docs_core.setup()'' @ [nl] @
     [nl] @
     ''external_projects_current_project = '' @ [dq] @ ''hipcub'' @ [dq] @ [nl] @
     [nl] @
     ''for sphinx_var in ROCmDocs.SPHINX_VARS:'' @ [nl] @
     ''    globals()[sphinx_var] = getattr(docs_core, sphinx_var)''"

text \<open>
  The lines of a text, as Python's \<open>readlines\<close> and an editor count them: a newline
  ends a line, and text after the last newline is a line of its own.
\<close>

fun split_lines :: "string \<Rightarrow> string \<Rightarrow> string list" where
  "split_lines cur [] = (if cur = [] then [] else [cur])"
| "split_lines cur (c # cs) =
     (if c = nl then cur # split_lines [] cs else split_lines (cur @ [c]) cs)"

definition file_lines :: "string \<Rightarrow> string list" where
  "file_lines text = split_lines [] text"

subsection \<open>A small library to run the module against\<close>

text \<open>
  A stand-in for \<open>rocm_docs\<close> with a counter as its world: every call adds one. The
  class is \<open>Obj 0\<close> and its instance \<open>Obj 1\<close>; \<open>vars\<close> is the class-level list; the
  constructor, a method or an attribute read raises when its name is in \<open>bad\<close>. The
  attribute \<open>n\<close> of the instance is the object numbered by the length of \<open>n\<close>, and
  every attribute of any other object is \<open>Obj 3\<close>. Calling an object other than the
  class returns \<open>Obj 9\<close>, or raises when \<open>call\<close> is in \<open>bad\<close>. Any object other than
  the class has the one-element list \<open>["html_baseurl"]\<close> as its \<open>SPHINX_VARS\<close>.
\<close>

definition toy :: "string list \<Rightarrow> string list \<Rightarrow> nat extern" where
  "toy vars bad =
     \<lparr>ROCmDocs = Obj 0,
      SPHINX_VARS = vars,
      import_rocm_docs = (\<lambda>w. (Suc w, None)),
      call = (\<lambda>f args w. (Suc w,
                if f = Obj 0
                then (if ''ROCmDocs'' \<in> set bad then Inl (Thrown (Str ''ROCmDocs'')) else Inr (Obj 1))
                else (if ''call'' \<in> set bad then Inl (Thrown (Str ''call'')) else Inr (Obj 9)))),
      call_method = (\<lambda>d m args w. (Suc w,
                if m \<in> set bad then Inl (Thrown (Str m)) else Inr (Obj 2))),
      getattr = (\<lambda>d n w. (Suc w,
                if n \<in> set bad then Inl (Thrown (Str n))
                else if d = Obj 1 then Inr (Obj (length n)) else Inr (Obj 3))),
      iter_vars = (\<lambda>c w. (Suc w, Inr [''html_baseurl''])),
      setitem = (\<lambda>d k v w. (Suc w, None))\<rparr>"

text \<open>The library with two exported variables and nothing raising.\<close>

definition demo :: "nat extern" where
  "demo = toy [''html_title'', ''html_theme_options''] []"

section \<open>Properties\<close>

lemmas stmt_defs = import_stmt_def construct_stmt_def method_stmt_def assign_stmt_def
  export_loop_def export_stmt_def eval_getattr_def store_global_def

lemmas run_defs = module_body_def run_first_def program_def initial_def stmt_defs
  bind_global_def left_def

lemmas demo_defs = demo_def toy_def run_defs

subsection \<open>Basic facts\<close>

lemma globals_bind_global [simp]: "globals (bind_global n v s) = (globals s)(n \<mapsto> v)"
  and world_bind_global [simp]: "world (bind_global n v s) = world s"
  and trace_bind_global [simp]: "trace (bind_global n v s) = trace s"
  by (simp_all add: bind_global_def)

lemma globals_left [simp]: "globals (left ev w s) = globals s"
  and world_left [simp]: "world (left ev w s) = w"
  and trace_left [simp]: "trace (left ev w s) = trace s @ [ev]"
  by (simp_all add: left_def)

lemma replay_simps [simp]:
  "replay ext [] w = w"
  "replay ext (ev # evs) w = replay ext evs (effect ext ev w)"
  "replay ext (xs @ ys) w = replay ext ys (replay ext xs w)"
  by (simp_all add: replay_def)

subsection \<open>What the loop leaves alone\<close>

lemma eval_getattr_globals: "globals (fst (eval_getattr ext n s)) = globals s"
  by (simp add: eval_getattr_def split: option.splits prod.splits)

lemma store_global_frame: "m \<noteq> n \<Longrightarrow> globals (final (store_global ext n v s)) m = globals s m"
  by (simp add: store_global_def split: option.splits prod.splits sum.splits)

lemma export_stmt_frame: "m \<noteq> n \<Longrightarrow> globals (final (export_stmt ext n s)) m = globals s m"
  by (simp add: export_stmt_def store_global_frame split: prod.splits sum.splits)
     (metis eval_getattr_globals fst_conv)

lemma for_loop_frame:
  "m \<notin> set ns \<Longrightarrow> m \<noteq> ''sphinx_var'' \<Longrightarrow> globals (final (for_loop ext ns s)) m = globals s m"
proof (induction ns arbitrary: s)
  case Nil
  then show ?case by simp
next
  case (Cons n ns)
  let ?s1 = "bind_global ''sphinx_var'' (Str n) s"
  have step: "globals (final (export_stmt ext n ?s1)) m = globals s m"
    using Cons.prems by (simp add: export_stmt_frame)
  show ?case
  proof (cases "export_stmt ext n ?s1")
    case (Completed s')
    with Cons step show ?thesis by simp
  next
    case (Raised e s')
    with step show ?thesis by simp
  qed
qed

subsection \<open>The outside world changes through the calls only\<close>

lemma accounted_bind [simp]: "accounted ext w0 (bind_global n v s) = accounted ext w0 s"
  by (simp add: accounted_def)

lemma import_accounted: "accounted ext w0 s \<Longrightarrow> accounted ext w0 (final (import_stmt ext s))"
  by (auto simp: import_stmt_def accounted_def split: prod.splits option.splits)

lemma construct_accounted: "accounted ext w0 s \<Longrightarrow> accounted ext w0 (final (construct_stmt ext s))"
  by (auto simp: construct_stmt_def accounted_def split: prod.splits option.splits sum.splits)

lemma method_accounted: "accounted ext w0 s \<Longrightarrow> accounted ext w0 (final (method_stmt ext m s))"
  by (auto simp: method_stmt_def accounted_def split: prod.splits option.splits sum.splits)

lemma assign_accounted: "accounted ext w0 s \<Longrightarrow> accounted ext w0 (final (assign_stmt s))"
  by (simp add: assign_stmt_def)

lemma eval_getattr_accounted: "accounted ext w0 s \<Longrightarrow> accounted ext w0 (fst (eval_getattr ext n s))"
  by (auto simp: eval_getattr_def accounted_def split: prod.splits option.splits)

lemma store_global_accounted: "accounted ext w0 s \<Longrightarrow> accounted ext w0 (final (store_global ext n v s))"
  by (auto simp: store_global_def accounted_def split: prod.splits option.splits sum.splits)

lemma export_stmt_accounted: "accounted ext w0 s \<Longrightarrow> accounted ext w0 (final (export_stmt ext n s))"
  using eval_getattr_accounted [of ext w0 s n]
  by (auto simp: export_stmt_def store_global_accounted split: prod.splits sum.splits)

lemma for_loop_accounted: "accounted ext w0 s \<Longrightarrow> accounted ext w0 (final (for_loop ext ns s))"
proof (induction ns arbitrary: s)
  case Nil
  then show ?case by simp
next
  case (Cons n ns)
  let ?s1 = "bind_global ''sphinx_var'' (Str n) s"
  have step: "accounted ext w0 (final (export_stmt ext n ?s1))"
    using Cons.prems by (simp add: export_stmt_accounted)
  show ?case
  proof (cases "export_stmt ext n ?s1")
    case (Completed s')
    with Cons.IH step show ?thesis by simp
  next
    case (Raised e s')
    with step show ?thesis by simp
  qed
qed

lemma export_loop_accounted: "accounted ext w0 s \<Longrightarrow> accounted ext w0 (final (export_loop ext s))"
  by (auto simp: export_loop_def for_loop_accounted split: option.splits prod.splits sum.splits)
     (auto simp: accounted_def intro!: for_loop_accounted [unfolded accounted_def])

lemma run_accounted:
  "accounted ext w0 s \<Longrightarrow>
   \<forall>st \<in> set sts. \<forall>s. accounted ext w0 s \<longrightarrow> accounted ext w0 (final (st s)) \<Longrightarrow>
   accounted ext w0 (final (run sts s))"
proof (induction sts arbitrary: s)
  case Nil
  then show ?case by simp
next
  case (Cons st sts)
  then have step: "accounted ext w0 (final (st s))" by simp
  show ?case
  proof (cases "st s")
    case (Completed s')
    with Cons step show ?thesis by simp
  next
    case (Raised e s')
    with step show ?thesis by simp
  qed
qed

lemma program_accounted:
  "\<forall>st \<in> set (program ext). \<forall>s. accounted ext w s \<longrightarrow> accounted ext w (final (st s))"
  by (simp add: program_def import_accounted construct_accounted method_accounted
      assign_accounted export_loop_accounted)

text \<open>
  C5. The module body does nothing to the outside world itself: in every run, whether
  it completes or raises, the world it leaves is the starting world taken through the
  delegated calls of its trace, in order, and through nothing else. What remains of the
  state is the module's own dictionary of globals.
\<close>

theorem world_changes_by_delegated_calls_only:
  "world (final (module_body ext w)) = replay ext (trace (final (module_body ext w))) w"
proof -
  have "accounted ext w (initial w)"
    by (simp add: accounted_def initial_def)
  then have "accounted ext w (final (module_body ext w))"
    unfolding module_body_def using program_accounted by (rule run_accounted)
  then show ?thesis by (simp add: accounted_def)
qed

subsection \<open>The shape of a trace\<close>






subsection \<open>Runs of a part of the module\<close>

lemma run_append:
  "run (xs @ ys) s = (case run xs s of Completed s' \<Rightarrow> run ys s' | Raised e s' \<Rightarrow> Raised e s')"
  by (induction xs arbitrary: s) (auto split: outcome.splits)

lemma run_single: "run [st] s = st s"
  by (simp split: outcome.splits)

lemma module_body_unfold:
  "module_body ext w =
     (case run_first 6 ext w of
        Completed s \<Rightarrow> export_loop ext s
      | Raised e s \<Rightarrow> Raised e s)"
proof -
  have "program ext = take 6 (program ext) @ [export_loop ext]"
    by (simp add: program_def)
  then have "run (program ext) (initial w) = run (take 6 (program ext) @ [export_loop ext]) (initial w)"
    by simp
  then show ?thesis
    unfolding module_body_def run_first_def
    by (simp only: run_append run_single)
qed

lemma run_first_6_Completed:
  "run_first 6 ext w = Completed s \<Longrightarrow>
   \<exists>d w2 w'. call ext (ROCmDocs ext) [Str ''hipCUB Documentation''] (fst (import_rocm_docs ext w)) = (w2, Inr d)
     \<and> s = before_loop ext d w'"
  by (auto simp: run_defs before_loop_def prelude_def
      split: prod.splits option.splits sum.splits outcome.splits)

lemma loop_event_not_method [simp]: "loop_event ev \<Longrightarrow> \<not> method_event ev"
  and loop_event_not_is_method [simp]: "loop_event ev \<Longrightarrow> \<not> is_method m ev"
  and loop_event_not_construct [simp]: "loop_event ev \<Longrightarrow> \<not> is_call ''ROCmDocs'' ev"
  by (cases ev; auto)+










subsection \<open>A call is made only after the one before it returned\<close>

lemma returned_append [simp]:
  "returned ext w (xs @ ys) = (returned ext w xs \<and> returned ext (replay ext xs w) ys)"
  by (induction xs arbitrary: w) auto


lemma orderly_bind [simp]:
  "orderly ext w0 (Completed (bind_global n v s)) = orderly ext w0 (Completed s)"
  by simp














lemma prelude_cases [case_names import_raises construct_raises run_doxygen_raises
    enable_api_reference_raises setup_raises all_return]:
  obtains
    (import_raises) w1 e where
      "import_rocm_docs ext w = (w1, Some e)"
  | (construct_raises) w1 w2 e where
      "import_rocm_docs ext w = (w1, None)"
      "call ext (ROCmDocs ext) [Str ''hipCUB Documentation''] w1 = (w2, Inl e)"
  | (run_doxygen_raises) w1 w2 d w3 e where
      "import_rocm_docs ext w = (w1, None)"
      "call ext (ROCmDocs ext) [Str ''hipCUB Documentation''] w1 = (w2, Inr d)"
      "call_method ext d ''run_doxygen'' [] w2 = (w3, Inl e)"
  | (enable_api_reference_raises) w1 w2 d w3 r3 w4 e where
      "import_rocm_docs ext w = (w1, None)"
      "call ext (ROCmDocs ext) [Str ''hipCUB Documentation''] w1 = (w2, Inr d)"
      "call_method ext d ''run_doxygen'' [] w2 = (w3, Inr r3)"
      "call_method ext d ''enable_api_reference'' [] w3 = (w4, Inl e)"
  | (setup_raises) w1 w2 d w3 r3 w4 r4 w5 e where
      "import_rocm_docs ext w = (w1, None)"
      "call ext (ROCmDocs ext) [Str ''hipCUB Documentation''] w1 = (w2, Inr d)"
      "call_method ext d ''run_doxygen'' [] w2 = (w3, Inr r3)"
      "call_method ext d ''enable_api_reference'' [] w3 = (w4, Inr r4)"
      "call_method ext d ''setup'' [] w4 = (w5, Inl e)"
  | (all_return) w1 w2 d w3 r3 w4 r4 w5 r5 where
      "import_rocm_docs ext w = (w1, None)"
      "call ext (ROCmDocs ext) [Str ''hipCUB Documentation''] w1 = (w2, Inr d)"
      "call_method ext d ''run_doxygen'' [] w2 = (w3, Inr r3)"
      "call_method ext d ''enable_api_reference'' [] w3 = (w4, Inr r4)"
      "call_method ext d ''setup'' [] w4 = (w5, Inr r5)"
proof -
  obtain w1 i where i: "import_rocm_docs ext w = (w1, i)"
    by (cases "import_rocm_docs ext w")
  show thesis
  proof (cases i)
    case (Some e)
    with i show ?thesis by (auto intro: import_raises)
  next
    case None
    obtain w2 c where c: "call ext (ROCmDocs ext) [Str ''hipCUB Documentation''] w1 = (w2, c)"
      by (cases "call ext (ROCmDocs ext) [Str ''hipCUB Documentation''] w1")
    show ?thesis
    proof (cases c)
      case (Inl e)
      with i None c show ?thesis by (auto intro: construct_raises)
    next
      case (Inr d)
      obtain w3 a where a: "call_method ext d ''run_doxygen'' [] w2 = (w3, a)"
        by (cases "call_method ext d ''run_doxygen'' [] w2")
      obtain w4 b where b: "call_method ext d ''enable_api_reference'' [] w3 = (w4, b)"
        by (cases "call_method ext d ''enable_api_reference'' [] w3")
      obtain w5 g where g: "call_method ext d ''setup'' [] w4 = (w5, g)"
        by (cases "call_method ext d ''setup'' [] w4")
      show ?thesis
      proof (cases a)
        case Inl
        with i None c Inr a show ?thesis by (auto intro: run_doxygen_raises)
      next
        case ra: Inr
        show ?thesis
        proof (cases b)
          case Inl
          with i None c Inr a ra b show ?thesis by (auto intro: enable_api_reference_raises)
        next
          case rb: Inr
          show ?thesis
          proof (cases g)
            case Inl
            with i None c Inr a ra b rb g show ?thesis by (auto intro: setup_raises)
          next
            case rg: Inr
            with i None c Inr a ra b rb g show ?thesis by (auto intro: all_return)
          qed
        qed
      qed
    qed
  qed
qed












subsection \<open>Exceptions\<close>

lemma module_body_from:
  "module_body ext w =
     (case run_first k ext w of
        Completed s \<Rightarrow> run (drop k (program ext)) s
      | Raised e s \<Rightarrow> Raised e s)"
proof -
  have "run (take k (program ext) @ drop k (program ext)) (initial w) =
      (case run (take k (program ext)) (initial w) of
         Completed s \<Rightarrow> run (drop k (program ext)) s
       | Raised e s \<Rightarrow> Raised e s)"
    by (rule run_append)
  then show ?thesis
    by (simp add: module_body_def run_first_def)
qed

lemma for_loop_append:
  "for_loop ext (xs @ ys) s =
     (case for_loop ext xs s of
        Completed s' \<Rightarrow> for_loop ext ys s'
      | Raised e s' \<Rightarrow> Raised e s')"
  by (induction xs arbitrary: s) (auto split: outcome.splits)

lemma run_first_globals:
  "run_first 1 ext w = Completed s \<Longrightarrow> globals s = [''ROCmDocs'' \<mapsto> ROCmDocs ext]"
  "run_first 2 ext w = Completed s \<Longrightarrow> globals s ''docs_core'' = Some d \<Longrightarrow>
     globals s = [''ROCmDocs'' \<mapsto> ROCmDocs ext, ''docs_core'' \<mapsto> d]"
  "run_first 3 ext w = Completed s \<Longrightarrow> globals s ''docs_core'' = Some d \<Longrightarrow>
     globals s = [''ROCmDocs'' \<mapsto> ROCmDocs ext, ''docs_core'' \<mapsto> d]"
  "run_first 4 ext w = Completed s \<Longrightarrow> globals s ''docs_core'' = Some d \<Longrightarrow>
     globals s = [''ROCmDocs'' \<mapsto> ROCmDocs ext, ''docs_core'' \<mapsto> d]"
  by (auto simp: run_defs split: prod.splits option.splits sum.splits)

lemma method_raises:
  assumes "run_first k ext w = Completed s"
    and "drop k (program ext) = method_stmt ext m # rest"
    and "globals s ''docs_core'' = Some d"
    and "call_method ext d m [] (world s) = (w', Inl e)"
  shows "module_body ext w = Raised e (left (EMethod d m []) w' s)"
  using assms by (simp add: module_body_from [of ext w k] method_stmt_def)

lemma run_first_6_accounted: "accounted ext w (final (run_first 6 ext w))"
proof -
  have "accounted ext w (initial w)"
    by (simp add: accounted_def initial_def)
  moreover have "\<forall>st \<in> set (take 6 (program ext)). \<forall>s. accounted ext w s \<longrightarrow> accounted ext w (final (st s))"
    using program_accounted [of ext w] by (meson in_set_takeD)
  ultimately show ?thesis
    unfolding run_first_def by (rule run_accounted)
qed

lemma blames_left:
  "accounted ext w0 s \<Longrightarrow> raised_by ext ev (world s) = Some e \<Longrightarrow> blames ext w0 e (left ev w' s)"
  by (simp add: blames_def accounted_def)

lemma import_blames:
  "accounted ext w0 s \<Longrightarrow> import_stmt ext s = Raised e s' \<Longrightarrow> blames ext w0 e s'"
  by (auto simp: import_stmt_def intro!: blames_left split: prod.splits option.splits)

lemma construct_blames:
  "accounted ext w0 s \<Longrightarrow> globals s ''ROCmDocs'' \<noteq> None \<Longrightarrow>
   construct_stmt ext s = Raised e s' \<Longrightarrow> blames ext w0 e s'"
  by (auto simp: construct_stmt_def intro!: blames_left split: prod.splits option.splits sum.splits)

lemma method_blames:
  "accounted ext w0 s \<Longrightarrow> globals s ''docs_core'' \<noteq> None \<Longrightarrow>
   method_stmt ext m s = Raised e s' \<Longrightarrow> blames ext w0 e s'"
  by (auto simp: method_stmt_def intro!: blames_left split: prod.splits option.splits sum.splits)

lemma store_global_blames:
  "accounted ext w0 s \<Longrightarrow> store_global ext n v s = Raised e s' \<Longrightarrow> blames ext w0 e s'"
  by (auto simp: store_global_def accounted_def intro!: blames_left
      split: prod.splits option.splits sum.splits)

lemma export_stmt_blames:
  assumes a: "accounted ext w0 s" and d: "globals s ''docs_core'' \<noteq> None"
    and r: "export_stmt ext n s = Raised e s'"
  shows "blames ext w0 e s'"
proof -
  obtain s1 v where ev: "eval_getattr ext n s = (s1, v)" by (cases "eval_getattr ext n s")
  have a1: "accounted ext w0 s1"
    using eval_getattr_accounted [OF a, of n] ev by simp
  show ?thesis
  proof (cases v)
    case (Inl x)
    then have "s' = s1" "x = e" using r ev by (simp_all add: export_stmt_def)
    then show ?thesis
      using a d ev Inl
      by (auto simp: eval_getattr_def intro!: blames_left split: prod.splits option.splits)
  next
    case (Inr x)
    then have "store_global ext n x s1 = Raised e s'"
      using r ev by (simp add: export_stmt_def)
    with a1 show ?thesis by (rule store_global_blames)
  qed
qed

lemma store_global_keeps_bound:
  "globals s m \<noteq> None \<Longrightarrow> globals (final (store_global ext n v s)) m \<noteq> None"
  by (auto simp: store_global_def split: prod.splits option.splits sum.splits)

lemma export_stmt_keeps_bound:
  assumes "globals s m \<noteq> None"
  shows "globals (final (export_stmt ext n s)) m \<noteq> None"
proof -
  obtain s1 v where ev: "eval_getattr ext n s = (s1, v)" by (cases "eval_getattr ext n s")
  have g: "globals s1 m \<noteq> None"
    using eval_getattr_globals [of ext n s] ev assms by simp
  show ?thesis
  proof (cases v)
    case (Inl x)
    with ev g show ?thesis by (simp add: export_stmt_def)
  next
    case (Inr x)
    with ev store_global_keeps_bound [OF g, of ext n x] show ?thesis
      by (simp add: export_stmt_def)
  qed
qed

lemma for_loop_blames:
  assumes "accounted ext w0 s" and "globals s ''docs_core'' \<noteq> None"
    and "for_loop ext ns s = Raised e s'"
  shows "blames ext w0 e s'"
  using assms
proof (induction ns arbitrary: s)
  case Nil
  then show ?case by simp
next
  case (Cons n ns)
  let ?s0 = "bind_global ''sphinx_var'' (Str n) s"
  have a0: "accounted ext w0 ?s0" using Cons.prems(1) by simp
  have d0: "globals ?s0 ''docs_core'' \<noteq> None" using Cons.prems(2) by simp
  show ?case
  proof (cases "export_stmt ext n ?s0")
    case (Completed s1)
    have "accounted ext w0 s1"
      using export_stmt_accounted [OF a0, of n] Completed by simp
    moreover have "globals s1 ''docs_core'' \<noteq> None"
      using export_stmt_keeps_bound [OF d0, of ext n] Completed by simp
    moreover have "for_loop ext ns s1 = Raised e s'"
      using Cons.prems(3) Completed by simp
    ultimately show ?thesis by (rule Cons.IH)
  next
    case (Raised x s1)
    then have "export_stmt ext n ?s0 = Raised e s'"
      using Cons.prems(3) by simp
    with a0 d0 show ?thesis by (rule export_stmt_blames)
  qed
qed

lemma export_loop_blames:
  assumes "accounted ext w0 s" and "globals s ''docs_core'' \<noteq> None"
    and "globals s ''ROCmDocs'' \<noteq> None"
    and "export_loop ext s = Raised e s'"
  shows "blames ext w0 e s'"
proof -
  obtain c where c: "globals s ''ROCmDocs'' = Some c" using assms(3) by auto
  show ?thesis
  proof (cases "c = ROCmDocs ext")
    case True
    then have "for_loop ext (SPHINX_VARS ext) s = Raised e s'"
      using assms(4) c by (simp add: export_loop_def)
    with assms(1,2) show ?thesis by (rule for_loop_blames)
  next
    case False
    obtain w' r where i: "iter_vars ext c (world s) = (w', r)"
      by (cases "iter_vars ext c (world s)")
    show ?thesis
    proof (cases r)
      case (Inl x)
      then have "s' = left (EIter c) w' s" "x = e"
        using assms(4) c False i by (simp_all add: export_loop_def)
      then show ?thesis using assms(1) i Inl by (auto intro!: blames_left)
    next
      case (Inr ns)
      let ?s1 = "left (EIter c) w' s"
      have "for_loop ext ns ?s1 = Raised e s'"
        using assms(4) c False i Inr by (simp add: export_loop_def)
      moreover have "accounted ext w0 ?s1"
        using assms(1) i by (simp add: accounted_def)
      moreover have "globals ?s1 ''docs_core'' \<noteq> None" using assms(2) by simp
      ultimately show ?thesis by (intro for_loop_blames)
    qed
  qed
qed

lemma module_blames:
  assumes "module_body ext w = Raised e s"
  shows "blames ext w e s"
proof (cases rule: prelude_cases [of ext w])
  case (import_raises w1 x)
  then show ?thesis using assms by (auto simp: run_defs blames_def)
next
  case (construct_raises w1 w2 x)
  then show ?thesis using assms by (auto simp: run_defs blames_def)
next
  case (run_doxygen_raises w1 w2 d w3 x)
  then show ?thesis using assms by (auto simp: run_defs blames_def)
next
  case (enable_api_reference_raises w1 w2 d w3 r3 w4 x)
  then show ?thesis using assms by (auto simp: run_defs blames_def)
next
  case (setup_raises w1 w2 d w3 r3 w4 r4 w5 x)
  then show ?thesis using assms by (auto simp: run_defs blames_def)
next
  case (all_return w1 w2 d w3 r3 w4 r4 w5 r5)
  then have c6: "run_first 6 ext w = Completed (before_loop ext d w5)"
    by (simp add: run_defs before_loop_def prelude_def)
  then have l: "export_loop ext (before_loop ext d w5) = Raised e s"
    using assms by (simp add: module_body_unfold)
  have "accounted ext w (before_loop ext d w5)"
    using run_first_6_accounted [of ext w] c6 by simp
  moreover have "globals (before_loop ext d w5) ''docs_core'' \<noteq> None"
    "globals (before_loop ext d w5) ''ROCmDocs'' \<noteq> None"
    by (simp_all add: before_loop_def)
  ultimately show ?thesis using l by (rule export_loop_blames)
qed

text \<open>
  C4. Nothing in the module catches an exception. When the constructor, one of the three
  methods or an attribute read of the export loop raises \<open>e\<close>, the run of the module
  ends with that same \<open>e\<close>, in the state the failing statement started in with only
  the failed call added to the trace: the globals are those bound before the failing
  statement (in the loop: those bound by the earlier iterations, and the loop variable),
  so neither the failing statement's own assignment nor any later one is performed.
  Conversely, whenever the module ends with an exception, it is the exception its last
  delegated call raised: the module raises none of its own and turns none into another.
\<close>

theorem exceptions_propagate:
  "(run_first 1 ext w = Completed s
      \<and> call ext (ROCmDocs ext) [Str ''hipCUB Documentation''] (world s) = (w', Inl e) \<longrightarrow>
        module_body ext w =
          Raised e (left (ECall ''ROCmDocs'' (ROCmDocs ext) [Str ''hipCUB Documentation'']) w' s)
        \<and> globals s = [''ROCmDocs'' \<mapsto> ROCmDocs ext])
   \<and> (run_first 2 ext w = Completed s \<and> globals s ''docs_core'' = Some d
      \<and> call_method ext d ''run_doxygen'' [] (world s) = (w', Inl e) \<longrightarrow>
        module_body ext w = Raised e (left (EMethod d ''run_doxygen'' []) w' s)
        \<and> globals s = [''ROCmDocs'' \<mapsto> ROCmDocs ext, ''docs_core'' \<mapsto> d])
   \<and> (run_first 3 ext w = Completed s \<and> globals s ''docs_core'' = Some d
      \<and> call_method ext d ''enable_api_reference'' [] (world s) = (w', Inl e) \<longrightarrow>
        module_body ext w = Raised e (left (EMethod d ''enable_api_reference'' []) w' s)
        \<and> globals s = [''ROCmDocs'' \<mapsto> ROCmDocs ext, ''docs_core'' \<mapsto> d])
   \<and> (run_first 4 ext w = Completed s \<and> globals s ''docs_core'' = Some d
      \<and> call_method ext d ''setup'' [] (world s) = (w', Inl e) \<longrightarrow>
        module_body ext w = Raised e (left (EMethod d ''setup'' []) w' s)
        \<and> globals s = [''ROCmDocs'' \<mapsto> ROCmDocs ext, ''docs_core'' \<mapsto> d])
   \<and> (run_first 6 ext w = Completed s \<and> SPHINX_VARS ext = ns1 @ n # ns2
      \<and> for_loop ext ns1 s = Completed sj
      \<and> globals sj ''getattr'' = None \<and> globals sj ''docs_core'' = Some d
      \<and> getattr ext d n (world sj) = (w', Inl e) \<longrightarrow>
        module_body ext w =
          Raised e (left (EGetattr d n) w' (bind_global ''sphinx_var'' (Str n) sj)))
   \<and> (module_body ext w = Raised x sx \<longrightarrow> blames ext w x sx)"
proof (intro conjI impI; (elim conjE)?)
  assume c: "run_first 1 ext w = Completed s"
    and r: "call ext (ROCmDocs ext) [Str ''hipCUB Documentation''] (world s) = (w', Inl e)"
  show g: "globals s = [''ROCmDocs'' \<mapsto> ROCmDocs ext]"
    using c by (rule run_first_globals(1))
  show "module_body ext w =
      Raised e (left (ECall ''ROCmDocs'' (ROCmDocs ext) [Str ''hipCUB Documentation'']) w' s)"
    using c r g by (simp add: module_body_from [of ext w 1] program_def construct_stmt_def)
next
  assume c: "run_first 2 ext w = Completed s" and d: "globals s ''docs_core'' = Some d"
    and r: "call_method ext d ''run_doxygen'' [] (world s) = (w', Inl e)"
  show "globals s = [''ROCmDocs'' \<mapsto> ROCmDocs ext, ''docs_core'' \<mapsto> d]"
    using c d by (rule run_first_globals(2))
  show "module_body ext w = Raised e (left (EMethod d ''run_doxygen'' []) w' s)"
    using c _ d r by (rule method_raises) (simp add: program_def)
next
  assume c: "run_first 3 ext w = Completed s" and d: "globals s ''docs_core'' = Some d"
    and r: "call_method ext d ''enable_api_reference'' [] (world s) = (w', Inl e)"
  show "globals s = [''ROCmDocs'' \<mapsto> ROCmDocs ext, ''docs_core'' \<mapsto> d]"
    using c d by (rule run_first_globals(3))
  show "module_body ext w = Raised e (left (EMethod d ''enable_api_reference'' []) w' s)"
    using c _ d r by (rule method_raises) (simp add: program_def)
next
  assume c: "run_first 4 ext w = Completed s" and d: "globals s ''docs_core'' = Some d"
    and r: "call_method ext d ''setup'' [] (world s) = (w', Inl e)"
  show "globals s = [''ROCmDocs'' \<mapsto> ROCmDocs ext, ''docs_core'' \<mapsto> d]"
    using c d by (rule run_first_globals(4))
  show "module_body ext w = Raised e (left (EMethod d ''setup'' []) w' s)"
    using c _ d r by (rule method_raises) (simp add: program_def)
next
  assume c: "run_first 6 ext w = Completed s" and v: "SPHINX_VARS ext = ns1 @ n # ns2"
    and l: "for_loop ext ns1 s = Completed sj"
    and g: "globals sj ''getattr'' = None" and d: "globals sj ''docs_core'' = Some d"
    and r: "getattr ext d n (world sj) = (w', Inl e)"
  obtain d' w6 where "s = before_loop ext d' w6"
    using run_first_6_Completed [OF c] by auto
  then have "export_loop ext s = for_loop ext (ns1 @ n # ns2) s"
    using v by (simp add: export_loop_def before_loop_def)
  also have "\<dots> = for_loop ext (n # ns2) sj"
    using l by (simp add: for_loop_append)
  also have "\<dots> = Raised e (left (EGetattr d n) w' (bind_global ''sphinx_var'' (Str n) sj))"
    using g d r by (simp add: export_stmt_def eval_getattr_def)
  finally show "module_body ext w =
      Raised e (left (EGetattr d n) w' (bind_global ''sphinx_var'' (Str n) sj))"
    using c by (simp add: module_body_unfold)
next
  assume "module_body ext w = Raised x sx"
  then show "blames ext w x sx" by (rule module_blames)
qed

theorem exceptions_propagate_witness:
  "completed (run_first 4 (toy [''html_title'', ''html_theme_options''] [''setup'']) 0)
   \<and> module_body (toy [''html_title'', ''html_theme_options''] [''setup'']) 0 =
       Raised (Thrown (Str ''setup''))
         \<lparr>globals = [''ROCmDocs'' \<mapsto> Obj 0, ''docs_core'' \<mapsto> Obj 1], world = 5,
          trace = [EImport, ECall ''ROCmDocs'' (Obj 0) [Str ''hipCUB Documentation''],
                   EMethod (Obj 1) ''run_doxygen'' [], EMethod (Obj 1) ''enable_api_reference'' [],
                   EMethod (Obj 1) ''setup'' []]\<rparr>
   \<and> completed (run_first 6 (toy [''html_title'', ''html_theme_options''] [''html_theme_options'']) 0)
   \<and> module_body (toy [''html_title'', ''html_theme_options''] [''html_theme_options'']) 0 =
       Raised (Thrown (Str ''html_theme_options''))
         (final (module_body (toy [''html_title'', ''html_theme_options''] [''html_theme_options'']) 0))
   \<and> globals (final (module_body (toy [''html_title'', ''html_theme_options''] [''html_theme_options'']) 0))
        ''html_title'' = Some (Obj 10)
   \<and> globals (final (module_body (toy [''html_title'', ''html_theme_options''] [''html_theme_options'']) 0))
        ''sphinx_var'' = Some (Str ''html_theme_options'')
   \<and> globals (final (module_body (toy [''html_title'', ''html_theme_options''] [''html_theme_options'']) 0))
        ''html_theme_options'' = None
   \<and> blames (toy [''html_title'', ''html_theme_options''] [''setup'']) 0 (Thrown (Str ''setup''))
        (final (module_body (toy [''html_title'', ''html_theme_options''] [''setup'']) 0))"
  using
    exceptions_propagate [of "toy [''html_title'', ''html_theme_options''] [''setup'']" 0
      "final (run_first 4 (toy [''html_title'', ''html_theme_options''] [''setup'']) 0)"
      5 "Thrown (Str ''setup'')" "Obj 1"]
    exceptions_propagate [of "toy [''html_title'', ''html_theme_options''] [''html_theme_options'']" 0
      "final (run_first 6 (toy [''html_title'', ''html_theme_options''] [''html_theme_options'']) 0)"
      7 "Thrown (Str ''html_theme_options'')" "Obj 1" "[''html_title'']" "''html_theme_options''" "[]"
      "final (for_loop (toy [''html_title'', ''html_theme_options''] [''html_theme_options''])
         [''html_title'']
         (final (run_first 6 (toy [''html_title'', ''html_theme_options''] [''html_theme_options'']) 0)))"]
  by (simp add: toy_def run_defs blames_def)

subsection \<open>What the loop exports\<close>

lemma plain_export_stmt:
  "plain d s \<Longrightarrow>
   export_stmt ext n s =
     (case getattr ext d n (world s) of
        (w', Inl e) \<Rightarrow> Raised e (left (EGetattr d n) w' s)
      | (w', Inr v) \<Rightarrow> Completed (bind_global n v (left (EGetattr d n) w' s)))"
  by (simp add: plain_def export_stmt_def eval_getattr_def store_global_def
      split: prod.splits sum.splits)

lemma plain_sphinx_var [simp]: "plain d (bind_global ''sphinx_var'' v s) = plain d s"
  by (simp add: plain_def)

lemma plain_left [simp]: "plain d (left ev w' s) = plain d s"
  by (simp add: plain_def)

lemma plain_bind:
  "''docs_core'' \<noteq> n \<Longrightarrow> ''getattr'' \<noteq> n \<Longrightarrow> ''globals'' \<noteq> n \<Longrightarrow>
   plain d (bind_global n v s) = plain d s"
  by (auto simp: plain_def)

text \<open>One iteration from a plain state, when the loop goes on.\<close>

lemma plain_iteration:
  assumes p: "plain d s"
    and c: "export_stmt ext n (bind_global ''sphinx_var'' (Str n) s) = Completed s1"
  obtains w' v where "getattr ext d n (world s) = (w', Inr v)"
    and "s1 = bind_global n v (left (EGetattr d n) w' (bind_global ''sphinx_var'' (Str n) s))"
proof -
  obtain w' r where g: "getattr ext d n (world s) = (w', r)"
    by (cases "getattr ext d n (world s)")
  have e: "export_stmt ext n (bind_global ''sphinx_var'' (Str n) s) =
     (case getattr ext d n (world s) of
        (w', Inl e) \<Rightarrow> Raised e (left (EGetattr d n) w' (bind_global ''sphinx_var'' (Str n) s))
      | (w', Inr v) \<Rightarrow> Completed (bind_global n v (left (EGetattr d n) w' (bind_global ''sphinx_var'' (Str n) s))))"
    using plain_export_stmt [of d "bind_global ''sphinx_var'' (Str n) s" ext n] p by simp
  show thesis
  proof (cases r)
    case (Inl x)
    with e g c show ?thesis by simp
  next
    case (Inr v)
    with e g c have "s1 = bind_global n v (left (EGetattr d n) w' (bind_global ''sphinx_var'' (Str n) s))"
      by simp
    with g Inr that show ?thesis by simp
  qed
qed

lemma for_loop_plain:
  assumes "plain d s"
    and "''docs_core'' \<notin> set ns" and "''getattr'' \<notin> set ns" and "''globals'' \<notin> set ns"
    and "for_loop ext ns s = Completed s'"
  shows "plain d s' \<and> trace s' = trace s @ map (EGetattr d) ns"
  using assms
proof (induction ns arbitrary: s)
  case Nil
  then show ?case by simp
next
  case (Cons n ns)
  let ?s0 = "bind_global ''sphinx_var'' (Str n) s"
  obtain s1 where c: "export_stmt ext n ?s0 = Completed s1"
    and l: "for_loop ext ns s1 = Completed s'"
    using Cons.prems(5) by (cases "export_stmt ext n ?s0") simp_all
  from Cons.prems(1) c obtain w' v where
    s1: "s1 = bind_global n v (left (EGetattr d n) w' ?s0)"
    by (rule plain_iteration)
  have "plain d s1"
    using Cons.prems(1-4) s1 by (simp add: plain_bind)
  then have "plain d s' \<and> trace s' = trace s1 @ map (EGetattr d) ns"
    using Cons.prems(2-4) l by (intro Cons.IH) simp_all
  then show ?case using s1 by simp
qed

lemma for_loop_reads:
  assumes "plain d s"
    and "''docs_core'' \<notin> set ns" and "''getattr'' \<notin> set ns" and "''globals'' \<notin> set ns"
    and "''sphinx_var'' \<notin> set ns"
    and "accounted ext w0 s"
    and "for_loop ext ns s = Completed s'"
    and "n \<in> set ns"
  shows "\<exists>evs1 evs2 v w'. trace s' = evs1 @ EGetattr d n # evs2 \<and> EGetattr d n \<notin> set evs2
           \<and> getattr ext d n (replay ext evs1 w0) = (w', Inr v) \<and> globals s' n = Some v"
  using assms
proof (induction ns arbitrary: s)
  case Nil
  then show ?case by simp
next
  case (Cons m ns)
  let ?s0 = "bind_global ''sphinx_var'' (Str m) s"
  obtain s1 where c: "export_stmt ext m ?s0 = Completed s1"
    and l: "for_loop ext ns s1 = Completed s'"
    using Cons.prems(7) by (cases "export_stmt ext m ?s0") simp_all
  from Cons.prems(1) c obtain w' v where
    g: "getattr ext d m (world s) = (w', Inr v)"
    and s1: "s1 = bind_global m v (left (EGetattr d m) w' ?s0)"
    by (rule plain_iteration)
  have p1: "plain d s1"
    using Cons.prems(1-4) s1 by (simp add: plain_bind)
  have a1: "accounted ext w0 s1"
    using Cons.prems(6) g s1 by (simp add: accounted_def)
  show ?case
  proof (cases "n \<in> set ns")
    case True
    show ?thesis
      using p1 _ _ _ _ a1 l True by (rule Cons.IH) (use Cons.prems(2-5) in simp_all)
  next
    case False
    then have n: "n = m" using Cons.prems(8) by simp
    have t: "trace s' = trace s @ EGetattr d m # map (EGetattr d) ns"
      using for_loop_plain [OF p1 _ _ _ l] Cons.prems(2-4) s1 by simp
    have 1: "EGetattr d m \<notin> set (map (EGetattr d) ns)"
      using False n by auto
    have 2: "getattr ext d m (replay ext (trace s) w0) = (w', Inr v)"
      using g Cons.prems(6) by (simp add: accounted_def)
    have 3: "globals s' m = Some v"
    proof -
      have "globals (final (for_loop ext ns s1)) m = globals s1 m"
        using False n Cons.prems(5) by (intro for_loop_frame) auto
      then show ?thesis using l s1 by simp
    qed
    have "trace s' = trace s @ EGetattr d n # map (EGetattr d) ns
        \<and> EGetattr d n \<notin> set (map (EGetattr d) ns)
        \<and> getattr ext d n (replay ext (trace s) w0) = (w', Inr v) \<and> globals s' n = Some v"
      using t 1 2 3 n by simp
    then show ?thesis by (intro exI)
  qed
qed

lemma plain_before_loop: "plain d (before_loop ext d w')"
  by (simp add: plain_def before_loop_def)

text \<open>
  C1, amended. Let the module complete, and let \<open>SPHINX_VARS\<close> name none of
  \<open>sphinx_var\<close>, \<open>docs_core\<close>, \<open>getattr\<close> and \<open>globals\<close>. Then \<open>docs_core\<close>
  still names the instance the constructor returned, and every name in \<open>SPHINX_VARS\<close>
  is bound to the value that the loop's last read of that attribute on that instance
  returned, in the world the calls before it had left.
\<close>

theorem exports_every_variable:
  assumes "module_body ext w = Completed s"
    and "''sphinx_var'' \<notin> set (SPHINX_VARS ext)"
    and "''docs_core'' \<notin> set (SPHINX_VARS ext)"
    and "''getattr'' \<notin> set (SPHINX_VARS ext)"
    and "''globals'' \<notin> set (SPHINX_VARS ext)"
  shows "\<exists>d w2. call ext (ROCmDocs ext) [Str ''hipCUB Documentation''] (fst (import_rocm_docs ext w)) = (w2, Inr d)
           \<and> globals s ''docs_core'' = Some d
           \<and> (\<forall>n \<in> set (SPHINX_VARS ext).
                \<exists>evs1 evs2 v w'. trace s = evs1 @ EGetattr d n # evs2 \<and> EGetattr d n \<notin> set evs2
                  \<and> getattr ext d n (replay ext evs1 w) = (w', Inr v) \<and> globals s n = Some v)"
proof -
  obtain s6 where c6: "run_first 6 ext w = Completed s6"
    using assms(1) by (cases "run_first 6 ext w") (simp_all add: module_body_unfold)
  obtain d w2 w6 where
    d: "call ext (ROCmDocs ext) [Str ''hipCUB Documentation''] (fst (import_rocm_docs ext w)) = (w2, Inr d)"
    and s6: "s6 = before_loop ext d w6"
    using run_first_6_Completed [OF c6] by auto
  have p: "plain d s6" using s6 by (simp add: plain_before_loop)
  have a: "accounted ext w s6" using run_first_6_accounted [of ext w] c6 by simp
  have l: "for_loop ext (SPHINX_VARS ext) s6 = Completed s"
    using assms(1) c6 s6 by (simp add: module_body_unfold export_loop_def before_loop_def)
  have "plain d s"
    using for_loop_plain [OF p assms(3-5) l] by simp
  then have "globals s ''docs_core'' = Some d" by (simp add: plain_def)
  moreover have "\<forall>n \<in> set (SPHINX_VARS ext).
      \<exists>evs1 evs2 v w'. trace s = evs1 @ EGetattr d n # evs2 \<and> EGetattr d n \<notin> set evs2
        \<and> getattr ext d n (replay ext evs1 w) = (w', Inr v) \<and> globals s n = Some v"
    using for_loop_reads [OF p assms(3-5) assms(2) a l] by simp
  ultimately show ?thesis using d by auto
qed

theorem exports_every_variable_witness:
  "completed (module_body demo 0)
   \<and> ''sphinx_var'' \<notin> set (SPHINX_VARS demo) \<and> ''docs_core'' \<notin> set (SPHINX_VARS demo)
   \<and> ''getattr'' \<notin> set (SPHINX_VARS demo) \<and> ''globals'' \<notin> set (SPHINX_VARS demo)
   \<and> globals (final (module_body demo 0)) ''docs_core'' = Some (Obj 1)
   \<and> getattr demo (Obj 1) ''html_title'' 5 = (6, Inr (Obj 10))
   \<and> globals (final (module_body demo 0)) ''html_title'' = Some (Obj 10)
   \<and> getattr demo (Obj 1) ''html_theme_options'' 6 = (7, Inr (Obj 18))
   \<and> globals (final (module_body demo 0)) ''html_theme_options'' = Some (Obj 18)"
  using exports_every_variable [of demo 0 "final (module_body demo 0)"]
  by (simp add: demo_defs)

text \<open>
  C1 as stated fails. With \<open>SPHINX_VARS = ["sphinx_var", "html_title"]\<close> the module
  completes, the attribute \<open>sphinx_var\<close> of the instance is read and is \<open>Obj 10\<close>,
  but the global \<open>sphinx_var\<close> ends as the string \<open>html_title\<close>: the loop variable
  is a module global, and the next iteration overwrites the export. The other three
  names the loop uses clash in the same way. With \<open>["docs_core", "html_title"]\<close> the
  global \<open>docs_core\<close> is rebound to an attribute value and \<open>html_title\<close> is then read
  from that object (\<open>Obj 3\<close>), not from the instance (\<open>Obj 10\<close>). With
  \<open>["getattr", "html_title"]\<close> the second iteration calls the attribute value bound to
  \<open>getattr\<close> and exports what it returns (\<open>Obj 9\<close>). With \<open>["globals", "html_title"]\<close>
  the second iteration stores into whatever the attribute value bound to \<open>globals\<close>
  returns, and \<open>html_title\<close> is never bound.
\<close>

theorem export_clashes_counterexample:
  "completed (module_body (toy [''sphinx_var'', ''html_title''] []) 0)
   \<and> ''sphinx_var'' \<in> set (SPHINX_VARS (toy [''sphinx_var'', ''html_title''] []))
   \<and> globals (final (module_body (toy [''sphinx_var'', ''html_title''] []) 0)) ''docs_core'' = Some (Obj 1)
   \<and> trace (final (module_body (toy [''sphinx_var'', ''html_title''] []) 0)) ! 5 =
        EGetattr (Obj 1) ''sphinx_var''
   \<and> getattr (toy [''sphinx_var'', ''html_title''] []) (Obj 1) ''sphinx_var'' 5 = (6, Inr (Obj 10))
   \<and> globals (final (module_body (toy [''sphinx_var'', ''html_title''] []) 0)) ''sphinx_var'' =
        Some (Str ''html_title'')
   \<and> completed (module_body (toy [''docs_core'', ''html_title''] []) 0)
   \<and> globals (final (run_first 2 (toy [''docs_core'', ''html_title''] []) 0)) ''docs_core'' = Some (Obj 1)
   \<and> getattr (toy [''docs_core'', ''html_title''] []) (Obj 1) ''html_title'' 6 = (7, Inr (Obj 10))
   \<and> globals (final (module_body (toy [''docs_core'', ''html_title''] []) 0)) ''docs_core'' = Some (Obj 9)
   \<and> globals (final (module_body (toy [''docs_core'', ''html_title''] []) 0)) ''html_title'' = Some (Obj 3)
   \<and> completed (module_body (toy [''getattr'', ''html_title''] []) 0)
   \<and> globals (final (module_body (toy [''getattr'', ''html_title''] []) 0)) ''docs_core'' = Some (Obj 1)
   \<and> getattr (toy [''getattr'', ''html_title''] []) (Obj 1) ''html_title'' 6 = (7, Inr (Obj 10))
   \<and> globals (final (module_body (toy [''getattr'', ''html_title''] []) 0)) ''html_title'' = Some (Obj 9)
   \<and> completed (module_body (toy [''globals'', ''html_title''] []) 0)
   \<and> globals (final (module_body (toy [''globals'', ''html_title''] []) 0)) ''html_title'' = None"
  by (simp add: toy_def run_defs)

lemma export_loop_frame:
  assumes "globals s ''ROCmDocs'' = Some (ROCmDocs ext)"
    and "n \<notin> set (SPHINX_VARS ext)" and "n \<noteq> ''sphinx_var''"
  shows "globals (final (export_loop ext s)) n = globals s n"
  using assms by (simp add: export_loop_def for_loop_frame)

text \<open>
  C8, amended. The export loop, started where the module starts it, changes no global
  other than those named in \<open>SPHINX_VARS\<close> and its own loop variable \<open>sphinx_var\<close>,
  whether it completes or raises. So when the module completes and
  \<open>external_projects_current_project\<close> is not in \<open>SPHINX_VARS\<close>, that global is still
  \<open>hipcub\<close>; and when \<open>docs_core\<close> is not in \<open>SPHINX_VARS\<close>, \<open>docs_core\<close> is
  still the instance the constructor returned.
\<close>

theorem loop_changes_exports_and_loop_variable_only:
  "(run_first 6 ext w = Completed s6 \<and> n \<notin> set (SPHINX_VARS ext) \<and> n \<noteq> ''sphinx_var'' \<longrightarrow>
      globals (final (export_loop ext s6)) n = globals s6 n)
   \<and> (module_body ext w = Completed s
        \<and> ''external_projects_current_project'' \<notin> set (SPHINX_VARS ext) \<longrightarrow>
      globals s ''external_projects_current_project'' = Some (Str ''hipcub''))
   \<and> (module_body ext w = Completed s \<and> ''docs_core'' \<notin> set (SPHINX_VARS ext) \<longrightarrow>
      (\<exists>d w2. call ext (ROCmDocs ext) [Str ''hipCUB Documentation''] (fst (import_rocm_docs ext w)) = (w2, Inr d)
         \<and> globals s ''docs_core'' = Some d))"
proof (intro conjI impI; (elim conjE)?)
  assume c6: "run_first 6 ext w = Completed s6"
    and n: "n \<notin> set (SPHINX_VARS ext)" "n \<noteq> ''sphinx_var''"
  obtain d w6 where "s6 = before_loop ext d w6"
    using run_first_6_Completed [OF c6] by auto
  then have "globals s6 ''ROCmDocs'' = Some (ROCmDocs ext)"
    by (simp add: before_loop_def)
  then show "globals (final (export_loop ext s6)) n = globals s6 n"
    using n by (rule export_loop_frame)
next
  assume m: "module_body ext w = Completed s"
    and n: "''external_projects_current_project'' \<notin> set (SPHINX_VARS ext)"
  obtain s6 where c6: "run_first 6 ext w = Completed s6"
    using m by (cases "run_first 6 ext w") (simp_all add: module_body_unfold)
  obtain d w6 where s6: "s6 = before_loop ext d w6"
    using run_first_6_Completed [OF c6] by auto
  have "globals (final (export_loop ext s6)) ''external_projects_current_project'' =
      globals s6 ''external_projects_current_project''"
    using s6 n by (intro export_loop_frame) (simp_all add: before_loop_def)
  then show "globals s ''external_projects_current_project'' = Some (Str ''hipcub'')"
    using m c6 s6 by (simp add: module_body_unfold before_loop_def)
next
  assume m: "module_body ext w = Completed s"
    and n: "''docs_core'' \<notin> set (SPHINX_VARS ext)"
  obtain s6 where c6: "run_first 6 ext w = Completed s6"
    using m by (cases "run_first 6 ext w") (simp_all add: module_body_unfold)
  obtain d w2 w6 where
    d: "call ext (ROCmDocs ext) [Str ''hipCUB Documentation''] (fst (import_rocm_docs ext w)) = (w2, Inr d)"
    and s6: "s6 = before_loop ext d w6"
    using run_first_6_Completed [OF c6] by auto
  have "globals (final (export_loop ext s6)) ''docs_core'' = globals s6 ''docs_core''"
    using s6 n by (intro export_loop_frame) (simp_all add: before_loop_def)
  then have "globals s ''docs_core'' = Some d"
    using m c6 s6 by (simp add: module_body_unfold before_loop_def)
  with d show "\<exists>d w2. call ext (ROCmDocs ext) [Str ''hipCUB Documentation''] (fst (import_rocm_docs ext w)) = (w2, Inr d)
         \<and> globals s ''docs_core'' = Some d"
    by auto
qed

theorem loop_changes_exports_and_loop_variable_only_witness:
  "completed (run_first 6 demo 0) \<and> completed (module_body demo 0)
   \<and> ''ROCmDocs'' \<notin> set (SPHINX_VARS demo)
   \<and> ''external_projects_current_project'' \<notin> set (SPHINX_VARS demo)
   \<and> ''docs_core'' \<notin> set (SPHINX_VARS demo)
   \<and> globals (final (module_body demo 0)) ''ROCmDocs'' = Some (Obj 0)
   \<and> globals (final (module_body demo 0)) ''external_projects_current_project'' = Some (Str ''hipcub'')
   \<and> globals (final (module_body demo 0)) ''docs_core'' = Some (Obj 1)"
  using
    loop_changes_exports_and_loop_variable_only
      [of demo 0 "final (run_first 6 demo 0)" "''ROCmDocs''" "final (module_body demo 0)"]
  by (simp add: demo_defs)

text \<open>
  C8 as stated fails twice. The loop binds \<open>sphinx_var\<close>, which is not in
  \<open>SPHINX_VARS\<close> and was unbound before. And with \<open>SPHINX_VARS = ["docs_core"]\<close>,
  which does not contain \<open>external_projects_current_project\<close>, the global
  \<open>docs_core\<close> ends as the attribute value \<open>Obj 9\<close>, not the instance \<open>Obj 1\<close>.
\<close>

theorem loop_binds_its_variable_counterexample:
  "completed (run_first 6 demo 0)
   \<and> ''sphinx_var'' \<notin> set (SPHINX_VARS demo)
   \<and> globals (final (run_first 6 demo 0)) ''sphinx_var'' = None
   \<and> globals (final (export_loop demo (final (run_first 6 demo 0)))) ''sphinx_var'' =
        Some (Str ''html_theme_options'')
   \<and> completed (module_body (toy [''docs_core''] []) 0)
   \<and> ''external_projects_current_project'' \<notin> set (SPHINX_VARS (toy [''docs_core''] []))
   \<and> globals (final (run_first 2 (toy [''docs_core''] []) 0)) ''docs_core'' = Some (Obj 1)
   \<and> globals (final (module_body (toy [''docs_core''] []) 0)) ''docs_core'' = Some (Obj 9)"
  by (simp add: demo_defs)

subsection \<open>Running the loop twice\<close>

lemma for_loop_first_reads:
  assumes "plain d s"
    and "''docs_core'' \<notin> set ns" and "''getattr'' \<notin> set ns" and "''globals'' \<notin> set ns"
    and "for_loop ext ns s = Completed s'"
    and "n \<in> set ns"
  shows "\<exists>w v. snd (getattr ext d n w) = Inr v"
  using assms
proof (induction ns arbitrary: s)
  case Nil
  then show ?case by simp
next
  case (Cons m ns)
  let ?s0 = "bind_global ''sphinx_var'' (Str m) s"
  obtain s1 where c: "export_stmt ext m ?s0 = Completed s1"
    and l: "for_loop ext ns s1 = Completed s'"
    using Cons.prems(5) by (cases "export_stmt ext m ?s0") simp_all
  from Cons.prems(1) c obtain w' v where
    g: "getattr ext d m (world s) = (w', Inr v)"
    and s1: "s1 = bind_global m v (left (EGetattr d m) w' ?s0)"
    by (rule plain_iteration)
  have p1: "plain d s1"
    using Cons.prems(1-4) s1 by (simp add: plain_bind)
  show ?case
  proof (cases "n = m")
    case True
    have "snd (getattr ext d m (world s)) = Inr v" using g by simp
    then show ?thesis using True by auto
  next
    case False
    then have "n \<in> set ns" using Cons.prems(6) by simp
    with p1 _ _ _ l show ?thesis by (rule Cons.IH) (use Cons.prems(2-4) in simp_all)
  qed
qed

lemma for_loop_deterministic:
  assumes "plain d s"
    and "''docs_core'' \<notin> set ns" and "''getattr'' \<notin> set ns" and "''globals'' \<notin> set ns"
    and "\<forall>n \<in> set ns. \<forall>w. snd (getattr ext d n w) = Inr (A n)"
  shows "\<exists>s'. for_loop ext ns s = Completed s' \<and> globals s' = fold (export_upd A) ns (globals s)"
  using assms
proof (induction ns arbitrary: s)
  case Nil
  then show ?case by simp
next
  case (Cons m ns)
  let ?s0 = "bind_global ''sphinx_var'' (Str m) s"
  have "snd (getattr ext d m (world s)) = Inr (A m)"
    using Cons.prems(5) by simp
  then obtain w' where g: "getattr ext d m (world s) = (w', Inr (A m))"
    by (cases "getattr ext d m (world s)") simp
  let ?s1 = "bind_global m (A m) (left (EGetattr d m) w' ?s0)"
  have e: "export_stmt ext m ?s0 = Completed ?s1"
    using plain_export_stmt [of d ?s0 ext m] Cons.prems(1) g by simp
  have p1: "plain d ?s1"
    using Cons.prems(1-4) by (simp add: plain_bind)
  have u: "globals ?s1 = export_upd A m (globals s)"
    by (simp add: export_upd_def)
  have "\<exists>s'. for_loop ext ns ?s1 = Completed s' \<and> globals s' = fold (export_upd A) ns (globals ?s1)"
    using p1 by (rule Cons.IH) (use Cons.prems(2-5) in simp_all)
  then have "\<exists>s'. for_loop ext ns ?s1 = Completed s' \<and>
      globals s' = fold (export_upd A) (m # ns) (globals s)"
    by (simp only: u fold_simps)
  then show ?case using e by simp
qed

lemma fold_export_upd_add:
  "fold (export_upd A) ns g = g ++ fold (export_upd A) ns Map.empty"
proof (induction ns arbitrary: g)
  case Nil
  then show ?case by simp
next
  case (Cons m ns)
  have "fold (export_upd A) (m # ns) g = export_upd A m g ++ fold (export_upd A) ns Map.empty"
    using Cons.IH [of "export_upd A m g"] by simp
  also have "export_upd A m g = g ++ export_upd A m Map.empty"
    by (simp add: export_upd_def)
  also have "(g ++ export_upd A m Map.empty) ++ fold (export_upd A) ns Map.empty =
      g ++ (export_upd A m Map.empty ++ fold (export_upd A) ns Map.empty)"
    by simp
  also have "export_upd A m Map.empty ++ fold (export_upd A) ns Map.empty =
      fold (export_upd A) (m # ns) Map.empty"
    using Cons.IH [of "export_upd A m Map.empty"] by simp
  finally show ?case .
qed

lemma fold_export_upd_idem:
  "fold (export_upd A) ns (fold (export_upd A) ns g) = fold (export_upd A) ns g"
proof -
  let ?M = "fold (export_upd A) ns Map.empty"
  have "fold (export_upd A) ns (fold (export_upd A) ns g) = (g ++ ?M) ++ ?M"
    using fold_export_upd_add [of A ns "fold (export_upd A) ns g"]
      fold_export_upd_add [of A ns g] by simp
  also have "\<dots> = g ++ ?M"
    by (rule ext) (simp add: map_add_def split: option.splits)
  finally show ?thesis using fold_export_upd_add [of A ns g] by simp
qed

lemma fold_export_upd_value:
  "n \<in> set ns \<Longrightarrow> n \<noteq> ''sphinx_var'' \<Longrightarrow> fold (export_upd A) ns g n = Some (A n)"
proof (induction ns arbitrary: g rule: rev_induct)
  case Nil
  then show ?case by simp
next
  case (snoc m ns)
  then show ?case by (cases "n = m") (auto simp: export_upd_def)
qed

text \<open>
  C9, amended. Start the loop where \<open>ROCmDocs\<close> names the class, \<open>docs_core\<close> names
  \<open>d\<close> and \<open>getattr\<close> and \<open>globals\<close> are the builtins; let \<open>SPHINX_VARS\<close> contain
  none of these four names, and let the reads of its attributes from \<open>d\<close> be
  deterministic. If the loop completes, running it again at once completes too and
  leaves the globals exactly as the first run left them; and each exported global
  (other than the loop variable) holds the one value its attribute reads as.
\<close>

theorem export_loop_idempotent:
  assumes "export_loop ext s = Completed s1"
    and "globals s ''ROCmDocs'' = Some (ROCmDocs ext)"
    and "globals s ''docs_core'' = Some d"
    and "globals s ''getattr'' = None"
    and "globals s ''globals'' = None"
    and "''ROCmDocs'' \<notin> set (SPHINX_VARS ext)"
    and "''docs_core'' \<notin> set (SPHINX_VARS ext)"
    and "''getattr'' \<notin> set (SPHINX_VARS ext)"
    and "''globals'' \<notin> set (SPHINX_VARS ext)"
    and "deterministic_reads ext d (SPHINX_VARS ext)"
  shows "(\<exists>s2. export_loop ext s1 = Completed s2 \<and> globals s2 = globals s1)
       \<and> (\<forall>n \<in> set (SPHINX_VARS ext). n \<noteq> ''sphinx_var'' \<longrightarrow>
            (\<exists>v. globals s1 n = Some v \<and> (\<forall>w'. snd (getattr ext d n w') = Inr v)))"
proof -
  let ?ns = "SPHINX_VARS ext"
  have p: "plain d s" using assms(3-5) by (simp add: plain_def)
  have l: "for_loop ext ?ns s = Completed s1"
    using assms(1,2) by (simp add: export_loop_def)
  have "\<forall>n \<in> set ?ns. \<exists>v. \<forall>w. snd (getattr ext d n w) = Inr v"
  proof
    fix n assume n: "n \<in> set ?ns"
    obtain w v where "snd (getattr ext d n w) = Inr v"
      using for_loop_first_reads [OF p assms(7-9) l n] by auto
    moreover have "\<forall>w'. snd (getattr ext d n w') = snd (getattr ext d n w)"
      using assms(10) n by (simp add: deterministic_reads_def)
    ultimately show "\<exists>v. \<forall>w. snd (getattr ext d n w) = Inr v" by auto
  qed
  then obtain A where A: "\<forall>n \<in> set ?ns. \<forall>w. snd (getattr ext d n w) = Inr (A n)"
    by metis
  obtain s1' where "for_loop ext ?ns s = Completed s1'"
    and "globals s1' = fold (export_upd A) ?ns (globals s)"
    using for_loop_deterministic [OF p assms(7-9) A] by auto
  then have g1: "globals s1 = fold (export_upd A) ?ns (globals s)"
    using l by simp
  have p1: "plain d s1"
    using for_loop_plain [OF p assms(7-9) l] by simp
  have "globals (final (for_loop ext ?ns s)) ''ROCmDocs'' = globals s ''ROCmDocs''"
    using assms(6) by (intro for_loop_frame) simp_all
  then have c1: "globals s1 ''ROCmDocs'' = Some (ROCmDocs ext)"
    using l assms(2) by simp
  obtain s2 where l2: "for_loop ext ?ns s1 = Completed s2"
    and g2: "globals s2 = fold (export_upd A) ?ns (globals s1)"
    using for_loop_deterministic [OF p1 assms(7-9) A] by auto
  have "export_loop ext s1 = Completed s2"
    using l2 c1 by (simp add: export_loop_def)
  moreover have "globals s2 = globals s1"
    using g1 g2 by (simp add: fold_export_upd_idem)
  moreover have "\<forall>n \<in> set ?ns. n \<noteq> ''sphinx_var'' \<longrightarrow>
      (\<exists>v. globals s1 n = Some v \<and> (\<forall>w'. snd (getattr ext d n w') = Inr v))"
    using g1 A by (simp add: fold_export_upd_value)
  ultimately show ?thesis by simp
qed

theorem export_loop_idempotent_witness:
  "completed (export_loop demo (final (run_first 6 demo 0)))
   \<and> globals (final (run_first 6 demo 0)) ''ROCmDocs'' = Some (ROCmDocs demo)
   \<and> globals (final (run_first 6 demo 0)) ''docs_core'' = Some (Obj 1)
   \<and> globals (final (run_first 6 demo 0)) ''getattr'' = None
   \<and> globals (final (run_first 6 demo 0)) ''globals'' = None
   \<and> ''ROCmDocs'' \<notin> set (SPHINX_VARS demo) \<and> ''docs_core'' \<notin> set (SPHINX_VARS demo)
   \<and> ''getattr'' \<notin> set (SPHINX_VARS demo) \<and> ''globals'' \<notin> set (SPHINX_VARS demo)
   \<and> deterministic_reads demo (Obj 1) (SPHINX_VARS demo)
   \<and> completed (export_loop demo (final (export_loop demo (final (run_first 6 demo 0)))))
   \<and> globals (final (export_loop demo (final (export_loop demo (final (run_first 6 demo 0)))))) =
       globals (final (export_loop demo (final (run_first 6 demo 0))))
   \<and> globals (final (export_loop demo (final (run_first 6 demo 0)))) ''html_title'' = Some (Obj 10)"
  using export_loop_idempotent [of demo "final (run_first 6 demo 0)"
      "final (export_loop demo (final (run_first 6 demo 0)))" "Obj 1"]
  by (auto simp: demo_defs deterministic_reads_def)

text \<open>
  C9 as stated fails. With \<open>SPHINX_VARS = ["getattr"]\<close> the reads from the instance
  are deterministic and \<open>docs_core\<close> stays the instance, but the first run of the loop
  binds the global \<open>getattr\<close> to the attribute value \<open>Obj 7\<close>; the second run then
  calls that object instead of the builtin and stores what it returns, \<open>Obj 9\<close>. The
  other names the loop reads clash as well. With \<open>["ROCmDocs"]\<close> the second run takes
  its list from the attribute value now bound to \<open>ROCmDocs\<close> and binds a new global.
  With \<open>["html_title", "globals"]\<close> and an attribute value that raises when called, the
  second run raises in its first iteration and leaves the loop variable at
  \<open>html_title\<close>, where the first run had left it at \<open>globals\<close>.
\<close>

theorem second_run_differs_counterexample:
  "completed (module_body (toy [''getattr''] []) 0)
   \<and> deterministic_reads (toy [''getattr''] []) (Obj 1) (SPHINX_VARS (toy [''getattr''] []))
   \<and> globals (final (module_body (toy [''getattr''] []) 0)) ''docs_core'' = Some (Obj 1)
   \<and> globals (final (module_body (toy [''getattr''] []) 0)) ''getattr'' = Some (Obj 7)
   \<and> completed (loop_again (toy [''getattr''] []) 0)
   \<and> globals (final (loop_again (toy [''getattr''] []) 0)) ''docs_core'' = Some (Obj 1)
   \<and> globals (final (loop_again (toy [''getattr''] []) 0)) ''getattr'' = Some (Obj 9)
   \<and> completed (module_body (toy [''ROCmDocs''] []) 0)
   \<and> deterministic_reads (toy [''ROCmDocs''] []) (Obj 1) (SPHINX_VARS (toy [''ROCmDocs''] []))
   \<and> globals (final (module_body (toy [''ROCmDocs''] []) 0)) ''html_baseurl'' = None
   \<and> completed (loop_again (toy [''ROCmDocs''] []) 0)
   \<and> globals (final (loop_again (toy [''ROCmDocs''] []) 0)) ''html_baseurl'' = Some (Obj 12)
   \<and> completed (module_body (toy [''html_title'', ''globals''] [''call'']) 0)
   \<and> deterministic_reads (toy [''html_title'', ''globals''] [''call'']) (Obj 1)
        (SPHINX_VARS (toy [''html_title'', ''globals''] [''call'']))
   \<and> globals (final (module_body (toy [''html_title'', ''globals''] [''call'']) 0)) ''sphinx_var'' =
        Some (Str ''globals'')
   \<and> \<not> completed (loop_again (toy [''html_title'', ''globals''] [''call'']) 0)
   \<and> globals (final (loop_again (toy [''html_title'', ''globals''] [''call'']) 0)) ''sphinx_var'' =
        Some (Str ''html_title'')"
  by (simp add: toy_def run_defs loop_again_def deterministic_reads_def)

subsection \<open>The source text\<close>

text \<open>C6. The text of \<open>docs/conf.py\<close> has exactly eighteen lines.\<close>

theorem conf_py_has_18_lines: "length (file_lines conf_py) = 18"
  by code_simp

end
